theory Spec2Isabelle
  imports Main "HOL-Library.Word"
begin

unbundle bit_operations_syntax

section \<open>Data model\<close>

text \<open>
  A Go \<open>[]byte\<close> is modelled by its contents, a list of 8-bit words; \<open>uint16\<close> and
  \<open>uint32\<close> are 16- and 32-bit words, so that shifts and additions wrap as in Go.
  Go's \<open>int\<close> only ever holds lengths and offsets of slices here and is a \<open>nat\<close>.
  Slices are passed by value: a view such as \<open>Question.Name\<close> is the list of bytes it
  shows at the moment it is taken.
\<close>

type_synonym byte = "8 word"
type_synonym u16 = "16 word"
type_synonym u32 = "32 word"

text \<open>
  Everything a call can end with besides a normal return: one of the three declared error
  values, or a run-time panic (an index or a slice bound out of range, or the explicit
  \<open>panic("not implemented")\<close>).
\<close>

datatype error = ErrInvalidHeader | ErrInvalidQuestion | ErrInvalidAnswer

datatype panic = IndexOutOfRange | SliceBoundsOutOfRange | NotImplemented

datatype failure = Returned error | Panicked panic

text \<open>\<open>uint16(hi)<<8 | uint16(lo)\<close>, the expression every 16-bit field is read with.\<close>

definition be16 :: "byte \<Rightarrow> byte \<Rightarrow> u16" where
  "be16 hi lo = push_bit 8 (ucast hi) OR ucast lo"

text \<open>\<open>byte(x >> 8), byte(x & 0xff)\<close>, the two bytes every 16-bit field is written with.\<close>

definition put16 :: "u16 \<Rightarrow> byte list" where
  "put16 x = [ucast (drop_bit 8 x), ucast (x AND 0xff)]"

subsection \<open>request.go: the legacy request with one field per flag\<close>

text \<open>
  Modelled from the spec: the declarations of the types \<open>Opcode\<close>, \<open>Rcode\<close>, \<open>Type\<close>,
  \<open>Class\<close> and \<open>Bits\<close> are not among the sources. \<open>Opcode\<close> and \<open>Rcode\<close> are converted
  from and to \<open>byte\<close> by the code, \<open>Type\<close>, \<open>Class\<close> and \<open>Bits\<close> are the 16-bit fields
  of the wire format.
\<close>

record RequestHeader =
  ID :: u16
  QR :: byte
  Opcode :: byte
  AA :: byte
  TC :: byte
  RD :: byte
  RA :: byte
  Z :: byte
  RCODE :: byte
  QDCount :: u16
  ANCount :: u16
  NSCount :: u16
  ARCount :: u16

record RequestQuestion =
  Name :: "byte list"
  Type :: u16
  Class :: u16

record Request =
  Header :: RequestHeader
  Question :: RequestQuestion

text \<open>
  \<open>for i, b = range payload { if b == 0 { break } }\<close>: afterwards \<open>i\<close> is the index of the
  first zero byte, the last index when there is none, and 0 for an empty slice.
\<close>

fun first_zero :: "byte list \<Rightarrow> nat" where
  "first_zero [] = 0"
| "first_zero (b # bs) = (if b = 0 \<or> bs = [] then 0 else Suc (first_zero bs))"

text \<open>
  \<open>ParseRequest\<close> writes into \<open>dst\<close> as it goes, so the request is returned together
  with the error (\<open>None\<close> is Go's \<open>nil\<close>). The indices 0 to 11 are guarded by the length
  check, those after the name by \<open>i+5 > len(payload)\<close>.
\<close>

definition ParseRequest :: "Request \<Rightarrow> byte list \<Rightarrow> failure option \<times> Request" where
  "ParseRequest dst payload =
    (if length payload < 12 then (Some (Returned ErrInvalidHeader), dst)
     else
       let b = payload ! 2;
           b' = payload ! 3;
           h = \<lparr>RequestHeader.ID = ucast (payload ! 1) OR push_bit 8 (ucast (payload ! 0)),
                QR = drop_bit 7 b AND 1,
                Opcode = drop_bit 3 b AND 15,
                AA = drop_bit 2 b AND 1,
                TC = drop_bit 1 b AND 1,
                RD = b AND 1,
                RA = drop_bit 7 b' AND 1,
                Z = drop_bit 4 b' AND 7,
                RCODE = b' AND 15,
                QDCount = be16 (payload ! 4) (payload ! 5),
                ANCount = be16 (payload ! 6) (payload ! 7),
                NSCount = be16 (payload ! 8) (payload ! 9),
                ARCount = be16 (payload ! 10) (payload ! 11)\<rparr>;
           dst = dst\<lparr>Request.Header := h\<rparr>
       in if RequestHeader.QDCount h \<noteq> 1 then (Some (Returned ErrInvalidHeader), dst)
          else
            let payload = drop 12 payload;
                i = first_zero payload
            in if i + 5 > length payload then (Some (Returned ErrInvalidQuestion), dst)
               else
                 let name = take (i + 1) payload;
                     payload = drop i payload
                 in (None,
                     dst\<lparr>Request.Question :=
                       \<lparr>RequestQuestion.Name = name,
                        Type = ucast (payload ! 2) OR push_bit 8 (ucast (payload ! 1)),
                        Class = ucast (payload ! 4) OR push_bit 8 (ucast (payload ! 3))\<rparr>\<rparr>))"

text \<open>
  \<open>AppendRequest\<close>: the shifts are those of the source, \<open>7 - 0\<close>, \<open>7 - (1 + 3)\<close>,
  \<open>7 - 5\<close>, \<open>7 - 6\<close> for the first flag byte and \<open>7 - 0\<close>, \<open>7 - 1\<close>, \<open>7 - (4 + 3)\<close> for
  the second; they act on bytes, so bits shifted past bit 7 are lost.
\<close>

definition AppendRequest :: "byte list \<Rightarrow> Request \<Rightarrow> byte list" where
  "AppendRequest dst req =
    (let h = Request.Header req;
         q = Request.Question req;
         b = push_bit (7 - 0) (RequestHeader.QR h)
             OR push_bit (7 - (1 + 3)) (RequestHeader.Opcode h)
             OR push_bit (7 - 5) (RequestHeader.AA h)
             OR push_bit (7 - 6) (RequestHeader.TC h)
             OR RequestHeader.RD h;
         b' = push_bit (7 - 0) (RequestHeader.RA h)
             OR push_bit (7 - 1) (RequestHeader.Z h)
             OR push_bit (7 - (4 + 3)) (RequestHeader.RCODE h);
         header = put16 (RequestHeader.ID h) @ [b, b']
                  @ put16 (RequestHeader.QDCount h) @ put16 (RequestHeader.ANCount h)
                  @ put16 (RequestHeader.NSCount h) @ put16 (RequestHeader.ARCount h);
         dst = dst @ header
     in if RequestHeader.QDCount h \<noteq> 0
        then dst @ RequestQuestion.Name q @ put16 (RequestQuestion.Type q)
                 @ put16 (RequestQuestion.Class q)
        else dst)"

subsection \<open>The message with a packed flag word\<close>

text \<open>
  \<open>Question.Name\<close> can be \<open>nil\<close>, which \<open>AppendMessage\<close> tests for: it is an option.
\<close>

record MessageHeader =
  ID :: u16
  Bits :: u16
  QDCount :: u16
  ANCount :: u16
  NSCount :: u16
  ARCount :: u16

record MessageQuestion =
  Name :: "byte list option"
  Type :: u16
  Class :: u16

record Message =
  Raw :: "byte list"
  Domain :: "byte list"
  Header :: MessageHeader
  Question :: MessageQuestion

text \<open>The zero value \<open>Message{}\<close>.\<close>

definition empty_message :: Message where
  "empty_message =
    \<lparr>Raw = [], Domain = [],
     Header = \<lparr>MessageHeader.ID = 0, Bits = 0, QDCount = 0, ANCount = 0, NSCount = 0,
                ARCount = 0\<rparr>,
     Question = \<lparr>Name = None, Type = 0, Class = 0\<rparr>\<rparr>"

text \<open>
  The fields of the flag word, at the bit positions of the diagram in the declaration of
  \<open>Header.Bits\<close> (bit 0 of the diagram is the most significant bit).
\<close>

definition bits_QR :: "u16 \<Rightarrow> u16" where "bits_QR b = drop_bit 15 b AND 1"
definition bits_Opcode :: "u16 \<Rightarrow> u16" where "bits_Opcode b = drop_bit 11 b AND 15"
definition bits_AA :: "u16 \<Rightarrow> u16" where "bits_AA b = drop_bit 10 b AND 1"
definition bits_TC :: "u16 \<Rightarrow> u16" where "bits_TC b = drop_bit 9 b AND 1"
definition bits_RD :: "u16 \<Rightarrow> u16" where "bits_RD b = drop_bit 8 b AND 1"
definition bits_RA :: "u16 \<Rightarrow> u16" where "bits_RA b = drop_bit 7 b AND 1"
definition bits_Z :: "u16 \<Rightarrow> u16" where "bits_Z b = drop_bit 4 b AND 7"
definition bits_RCODE :: "u16 \<Rightarrow> u16" where "bits_RCODE b = b AND 15"

text \<open>
  The loop that turns length bytes into dots, which \<open>ParseMessage\<close> runs on the copy of
  the question name and \<open>DecodeName\<close> on its output buffer:
  \<open>for payload[i] != 0 { j := int(payload[i]); payload[i] = '.'; i += j + 1 }\<close>.
  Indexing past the length panics.
\<close>

function dot_loop :: "byte list \<Rightarrow> nat \<Rightarrow> panic + byte list" where
  "dot_loop payload i =
    (if length payload \<le> i then Inl IndexOutOfRange
     else if payload ! i = 0 then Inr payload
     else dot_loop (payload[i := 0x2E]) (i + unat (payload ! i) + 1))"
  by pat_completeness auto
termination
  by (relation "measure (\<lambda>(payload, i). length payload - i)") auto

declare dot_loop.simps [simp del]

text \<open>
  \<open>ParseMessage\<close>. With \<open>copying\<close> the message takes the payload as its \<open>Raw\<close>; without
  it \<open>Raw\<close> is left as it was. The header fields are written before \<open>QDCount\<close> is
  checked, so the message is returned together with the error. When the domain loop
  panics, \<open>dst.Domain\<close> has not been assigned: the message returned is the one before
  the loop (what the loop had written into the backing array of \<open>Domain\<close> by then is
  not modelled). The length of the copied name is at least 1, since \<open>i\<close> is not 0.
\<close>

definition ParseMessage :: "Message \<Rightarrow> byte list \<Rightarrow> bool \<Rightarrow> failure option \<times> Message" where
  "ParseMessage dst payload copying =
    (let dst = (if copying then dst\<lparr>Raw := payload\<rparr> else dst)
     in if length payload < 12 then (Some (Returned ErrInvalidHeader), dst)
        else
          let h = \<lparr>MessageHeader.ID = be16 (payload ! 0) (payload ! 1),
                   Bits = be16 (payload ! 2) (payload ! 3),
                   QDCount = be16 (payload ! 4) (payload ! 5),
                   ANCount = be16 (payload ! 6) (payload ! 7),
                   NSCount = be16 (payload ! 8) (payload ! 9),
                   ARCount = be16 (payload ! 10) (payload ! 11)\<rparr>;
              dst = dst\<lparr>Header := h\<rparr>
          in if QDCount h \<noteq> 1 then (Some (Returned ErrInvalidHeader), dst)
             else
               let payload = drop 12 payload;
                   i = first_zero payload
               in if i = 0 \<or> i + 5 > length payload
                  then (Some (Returned ErrInvalidQuestion), dst)
                  else
                    let name = take (i + 1) payload;
                        payload = drop i payload;
                        dst = dst\<lparr>Question :=
                                \<lparr>Name = Some name,
                                 Type = ucast (payload ! 2) OR push_bit 8 (ucast (payload ! 1)),
                                 Class = ucast (payload ! 4) OR push_bit 8 (ucast (payload ! 3))\<rparr>\<rparr>;
                        i = unat (name ! 0);
                        payload = drop 1 name
                    in case dot_loop payload i of
                         Inl p \<Rightarrow> (Some (Panicked p), dst)
                       | Inr payload \<Rightarrow>
                           (None, dst\<lparr>Domain := take (length payload - 1) payload\<rparr>))"

text \<open>
  The pointer chase of \<open>DecodeName\<close>: the outer \<open>for offset != 0\<close> and the inner
  \<open>for i := offset; i < len(msg.Raw);\<close> as one function of \<open>offset\<close>, \<open>i\<close> and \<open>dst\<close>.
  When the inner loop runs off the end of \<open>Raw\<close> without a \<open>break\<close>, \<open>offset\<close> is
  unchanged and the outer loop starts over. The function may not return: its value is
  then \<open>None\<close>.

  Go allows the slice \<open>msg.Raw[i:i+b+1]\<close> to reach past the length of \<open>Raw\<close> up to
  its capacity; \<open>spare\<close> is what the backing array of \<open>Raw\<close> holds between length and
  capacity.
\<close>

partial_function (option) chase ::
  "byte list \<Rightarrow> byte list \<Rightarrow> nat \<Rightarrow> nat \<Rightarrow> byte list \<Rightarrow> (panic + byte list) option" where
  "chase raw spare offset i dst =
    (if offset = 0 then Some (Inr dst)
     else if i < length raw then
       (if raw ! i = 0 then Some (Inr (dst @ [0]))
        else if raw ! i AND 0xC0 = 0xC0 then
          (if i + 1 < length raw
           then chase raw spare
                  (unat (raw ! i AND 0x3F) * 256 + unat (raw ! (i + 1)))
                  (unat (raw ! i AND 0x3F) * 256 + unat (raw ! (i + 1))) dst
           else Some (Inl IndexOutOfRange))
        else
          (if i + unat (raw ! i) + 1 \<le> length raw + length spare
           then chase raw spare offset (i + unat (raw ! i) + 1)
                  (dst @ take (unat (raw ! i) + 1) (drop i (raw @ spare)))
           else Some (Inl SliceBoundsOutOfRange)))
     else chase raw spare offset offset dst)"

declare chase.simps [code]

text \<open>
  \<open>DecodeName\<close> after its fast path: the general path. \<open>None\<close> when the chase does not
  return.
\<close>

definition DecodeName_general ::
  "byte list \<Rightarrow> Message \<Rightarrow> byte list \<Rightarrow> byte list \<Rightarrow> (panic + byte list) option" where
  "DecodeName_general spare msg dst name =
    (let pos = length dst;
         offset = (if name ! (length name - 1) = 0 then 0
                   else unat (name ! (length name - 2) AND 0x3F) * 256
                        + unat (name ! (length name - 1)));
         dst = (if name ! (length name - 1) = 0 then dst @ name
                else dst @ take (length name - 2) name)
     in case chase (Raw msg) spare offset offset dst of
          None \<Rightarrow> None
        | Some (Inl p) \<Rightarrow> Some (Inl p)
        | Some (Inr dst) \<Rightarrow>
            (case dot_loop dst pos of
               Inl p \<Rightarrow> Some (Inl p)
             | Inr dst \<Rightarrow>
                 if pos + 1 \<le> length dst - 1
                 then Some (Inr (take pos dst
                                 @ take (length dst - 1 - (pos + 1)) (drop (pos + 1) dst)))
                 else Some (Inl SliceBoundsOutOfRange)))"

definition DecodeName ::
  "byte list \<Rightarrow> Message \<Rightarrow> byte list \<Rightarrow> byte list \<Rightarrow> (panic + byte list) option" where
  "DecodeName spare msg dst name =
    (if length name < 2 then Some (Inr dst)
     else if name ! 1 = 12 \<and> name ! 0 = 0xC0 then Some (Inr (dst @ Domain msg))
     else DecodeName_general spare msg dst name)"

text \<open>
  The name scan of \<open>VisitResourceRecords\<close>, byte by byte: the length of the name it finds
  (\<open>j+2\<close> at a byte with both top bits set, \<open>j+1\<close> at a zero byte), \<open>None\<close> when the
  scan ends with \<open>name == nil\<close>.
\<close>

fun name_len :: "byte list \<Rightarrow> nat option" where
  "name_len [] = None"
| "name_len (b # bs) =
    (if b AND 0xC0 = 0xC0 then Some 2
     else if b = 0 then Some 1
     else map_option Suc (name_len bs))"

text \<open>
  The callback is a Go closure: it is modelled with a state of its own, which it reads and
  updates at each call, next to the continue signal it returns.
\<close>

type_synonym 's callback = "'s \<Rightarrow> byte list \<Rightarrow> u16 \<Rightarrow> u16 \<Rightarrow> u32 \<Rightarrow> byte list \<Rightarrow> bool \<times> 's"

text \<open>
  The loop \<open>for i := uint16(0); i < msg.Header.ANCount; i++\<close>, by the number of rounds left.
  \<open>10+length\<close> is a \<open>uint16\<close> sum and wraps. A slice bound past the length panics, in
  \<open>payload[:j+2]\<close> or \<open>payload[10 : 10+length]\<close> when it is past the capacity too, and
  otherwise in \<open>payload[j+2:]\<close> or \<open>payload[10+length:]\<close>, in each case before the callback
  is called.
\<close>

fun visit_loop :: "nat \<Rightarrow> byte list \<Rightarrow> 's callback \<Rightarrow> 's \<Rightarrow> failure option \<times> 's" where
  "visit_loop 0 payload f s = (None, s)"
| "visit_loop (Suc n) payload f s =
    (case name_len payload of
       None \<Rightarrow> (Some (Returned ErrInvalidAnswer), s)
     | Some k \<Rightarrow>
         if length payload < k then (Some (Panicked SliceBoundsOutOfRange), s)
         else
           let name = take k payload;
               payload = drop k payload
           in if length payload < 10 then (Some (Panicked IndexOutOfRange), s)
              else
                let typ = push_bit 8 (ucast (payload ! 0)) OR ucast (payload ! 1);
                    class = push_bit 8 (ucast (payload ! 2)) OR ucast (payload ! 3);
                    ttl = push_bit 24 (ucast (payload ! 4)) OR push_bit 16 (ucast (payload ! 5))
                          OR push_bit 8 (ucast (payload ! 6)) OR ucast (payload ! 7);
                    len = be16 (payload ! 8) (payload ! 9);
                    hi = unat (10 + len)
                in if hi < 10 \<or> length payload < hi
                   then (Some (Panicked SliceBoundsOutOfRange), s)
                   else
                     let data = take (hi - 10) (drop 10 payload);
                         payload = drop hi payload
                     in case f s name typ class ttl data of
                          (ok, s') \<Rightarrow> if \<not> ok then (None, s') else visit_loop n payload f s')"

definition VisitResourceRecords :: "Message \<Rightarrow> 's callback \<Rightarrow> 's \<Rightarrow> failure option \<times> 's" where
  "VisitResourceRecords msg f s =
    (if ANCount (Header msg) = 0 then (Some (Returned ErrInvalidAnswer), s)
     else
       let n = 16 + (case Name (Question msg) of None \<Rightarrow> 0 | Some name \<Rightarrow> length name)
       in if length (Raw msg) < n then (Some (Panicked SliceBoundsOutOfRange), s)
          else visit_loop (unat (ANCount (Header msg))) (drop n (Raw msg)) f s)"


text \<open>
  The wire form of a name without its terminator, as the spec's wire format has it: each
  label preceded by its length byte.
\<close>

definition wire_labels :: "byte list list \<Rightarrow> byte list" where
  "wire_labels ls = concat (map (\<lambda>l. of_nat (length l) # l) ls)"

text \<open>
  Modelled from the spec: \<open>EncodeDomain\<close>, which \<open>SetQustion\<close> calls, is not among the
  sources. The name codec's encode of the spec: split the domain on dots, write a length
  byte and the label bytes for each segment, then a terminal zero byte.
\<close>

fun split_dots :: "byte list \<Rightarrow> byte list list" where
  "split_dots [] = [[]]"
| "split_dots (b # bs) =
    (if b = 0x2E then [] # split_dots bs
     else (case split_dots bs of [] \<Rightarrow> [[b]] | l # ls \<Rightarrow> (b # l) # ls))"

definition EncodeDomain :: "byte list \<Rightarrow> byte list \<Rightarrow> byte list" where
  "EncodeDomain dst domain = dst @ wire_labels (split_dots domain) @ [0]"

text \<open>
  \<open>SetQustion\<close>. \<open>rnd\<close> is the value of \<open>uint16(fastrandn(65536))\<close>; \<open>fastrandn\<close> is not
  among the sources and any 16-bit value is a possible result. The slice
  \<open>msg.Raw[len(header) : len(header)+len(domain)+2]\<close> is within the length of \<open>Raw\<close>,
  since \<open>EncodeDomain\<close> appends \<open>len(domain)+2\<close> bytes.
\<close>

definition SetQustion :: "u16 \<Rightarrow> Message \<Rightarrow> byte list \<Rightarrow> u16 \<Rightarrow> u16 \<Rightarrow> Message" where
  "SetQustion rnd msg domain typ class =
    (let h = (Header msg)\<lparr>MessageHeader.ID := rnd\<rparr>;
         h = h\<lparr>Bits := Bits h AND 0x7FF0\<rparr>;
         h = h\<lparr>Bits := Bits h OR 0x0100\<rparr>;
         h = h\<lparr>QDCount := 1, ANCount := 0, NSCount := 0, ARCount := 0\<rparr>;
         header = put16 (MessageHeader.ID h) @ put16 (Bits h) @ [0, 1, 0, 0, 0, 0, 0, 0];
         raw = header;
         raw = EncodeDomain raw domain;
         name = take (length domain + 2) (drop (length header) raw);
         raw = raw @ put16 typ;
         raw = raw @ put16 class
     in \<lparr>Raw = raw, Domain = domain, Header = h,
         Question = \<lparr>Name = Some name, Type = typ, Class = class\<rparr>\<rparr>)"

text \<open>
  The backfill loop of \<open>AppendMessage\<close>,
  \<open>for k := j; k >= i; k-- { if dst[k] == '.' { dst[k] = n; n = 0 } else { n++ } }\<close>,
  by the number \<open>k - i + 1\<close> of rounds left; \<open>n\<close> is a byte and wraps. \<open>k\<close> never
  exceeds \<open>j\<close>, the last index of \<open>dst\<close>.
\<close>

fun backfill :: "nat \<Rightarrow> nat \<Rightarrow> byte \<Rightarrow> byte list \<Rightarrow> byte list" where
  "backfill i 0 n dst = dst"
| "backfill i (Suc m) n dst =
    (if dst ! (i + m) = 0x2E then backfill i m 0 (dst[i + m := n])
     else backfill i m (n + 1) dst)"

definition AppendMessage :: "byte list \<Rightarrow> Message \<Rightarrow> byte list" where
  "AppendMessage dst msg =
    (let h = Header msg;
         q = Question msg;
         header = put16 (MessageHeader.ID h) @ put16 (Bits h) @ put16 (QDCount h)
                  @ put16 (ANCount h) @ put16 (NSCount h) @ put16 (ARCount h);
         dst = dst @ header
     in if QDCount h \<noteq> 0
        then
          let dst = (case Name q of
                       Some name \<Rightarrow> dst @ name
                     | None \<Rightarrow>
                         let i = length dst;
                             j = i + length (Domain msg);
                             dst = dst @ [0x2E];
                             dst = dst @ Domain msg;
                             dst = backfill i (j + 1 - i) 0 dst
                         in dst @ [0])
          in dst @ put16 (Type q) @ put16 (Class q)
        else dst)"

subsection \<open>Names and records of the wire format\<close>

text \<open>
  What the claims are stated with. \<open>join_dots\<close> is the normalized domain of a list of
  labels, the labels with one dot between neighbours. \<open>dotted\<close> is what the dot loop
  makes of \<open>wire_labels\<close>: a dot in the place of each length byte.
\<close>

fun join_dots :: "byte list list \<Rightarrow> byte list" where
  "join_dots [] = []"
| "join_dots [l] = l"
| "join_dots (l # ls) = l @ 0x2E # join_dots ls"

definition dotted :: "byte list list \<Rightarrow> byte list" where
  "dotted ls = concat (map (\<lambda>l. 0x2E # l) ls)"

text \<open>
  The length bytes of a label-encoded name: the first byte, and each byte that follows the
  bytes a length byte announces. The first argument counts the bytes still to skip.
\<close>

fun length_bytes :: "nat \<Rightarrow> byte list \<Rightarrow> byte list" where
  "length_bytes k [] = []"
| "length_bytes 0 (b # bs) = b # length_bytes (unat b) bs"
| "length_bytes (Suc k) (b # bs) = length_bytes k bs"




text \<open>
  A record name that ends where the wire format says it ends: bytes that are neither zero
  nor tagged as a pointer (both top bits set), then either the zero byte or a pointer of
  two bytes. A record is well formed when its name is and \<open>RDLENGTH + 10\<close> fits 16 bits,
  as it does in any message of at most 65535 bytes.
\<close>

fun wf_name :: "byte list \<Rightarrow> bool" where
  "wf_name [] = False"
| "wf_name (b # bs) =
    (if b AND 0xC0 = 0xC0 then length bs = 1 else if b = 0 then bs = [] else wf_name bs)"



section \<open>Theorems\<close>

subsection \<open>Labels, dots and length bytes\<close>

lemma wire_labels_Nil [simp]: "wire_labels [] = []"
  by (simp add: wire_labels_def)

lemma wire_labels_Cons [simp]: "wire_labels (l # ls) = of_nat (length l) # l @ wire_labels ls"
  by (simp add: wire_labels_def)

lemma wire_labels_append [simp]: "wire_labels (ks @ ls) = wire_labels ks @ wire_labels ls"
  by (simp add: wire_labels_def)

lemma dotted_Nil [simp]: "dotted [] = []"
  by (simp add: dotted_def)

lemma dotted_Cons [simp]: "dotted (l # ls) = 0x2E # l @ dotted ls"
  by (simp add: dotted_def)

lemma dotted_append [simp]: "dotted (ks @ ls) = dotted ks @ dotted ls"
  by (simp add: dotted_def)

lemma dotted_join: "ls \<noteq> [] \<Longrightarrow> dotted ls = 0x2E # join_dots ls"
  by (induction ls rule: join_dots.induct) auto

lemma join_dots_Cons: "join_dots (l # ls) = l @ dotted ls"
  by (induction ls arbitrary: l) auto

lemma join_dots_ends:
  "ls \<noteq> [] \<Longrightarrow> \<forall>l\<in>set ls. l \<noteq> [] \<Longrightarrow>
   join_dots ls \<noteq> [] \<and> hd (join_dots ls) = hd (hd ls) \<and> last (join_dots ls) = last (last ls)"
  by (induction ls rule: join_dots.induct) auto

lemma unat_length_byte: "n < 256 \<Longrightarrow> unat (of_nat n :: byte) = n"
  by (simp add: unat_of_nat)

lemma length_byte_nonzero: "0 < n \<Longrightarrow> n < 256 \<Longrightarrow> (of_nat n :: byte) \<noteq> 0"
  using unat_length_byte[of n] by auto

lemma pointer_tag_ge: "w AND 0xC0 = 0xC0 \<Longrightarrow> 192 \<le> unat (w :: byte)"
proof -
  assume "w AND 0xC0 = 0xC0"
  then have "(0xC0 :: byte) \<le> w" by (metis word_and_le2)
  then show ?thesis by (simp add: word_le_nat_alt)
qed

lemma first_zero_prefix: "\<forall>b\<in>set xs. b \<noteq> 0 \<Longrightarrow> first_zero (xs @ 0 # ys) = length xs"
  by (induction xs) auto

lemma first_zero_found:
  "first_zero q + 1 < length q \<Longrightarrow> q ! first_zero q = 0 \<and> (\<forall>k<first_zero q. q ! k \<noteq> 0)"
proof (induction q)
  case Nil
  then show ?case by simp
next
  case (Cons b bs)
  show ?case
  proof (cases "b = 0 \<or> bs = []")
    case True
    with Cons.prems show ?thesis by auto
  next
    case False
    with Cons.prems have "first_zero bs + 1 < length bs" by simp
    from Cons.IH[OF this] False show ?thesis by (auto simp: nth_Cons split: nat.splits)
  qed
qed

lemma wire_labels_nonzero:
  "\<forall>l\<in>set ls. l \<noteq> [] \<and> length l < 256 \<and> 0 \<notin> set l \<Longrightarrow> 0 \<notin> set (wire_labels ls)"
  by (induction ls) (auto simp: length_byte_nonzero)

lemma length_bytes_skip: "length_bytes (length l) (l @ xs) = length_bytes 0 xs"
  by (induction l) auto

lemma length_bytes_wire:
  "\<forall>l\<in>set ls. length l < 256 \<Longrightarrow>
   length_bytes 0 (wire_labels ls @ [0]) = map (\<lambda>l. of_nat (length l)) ls @ [0]"
  by (induction ls) (auto simp: unat_length_byte length_bytes_skip)

lemma drop_eq_ConsD: "drop i xs = y # ys \<Longrightarrow> i < length xs \<and> xs ! i = y"
proof -
  assume d: "drop i xs = y # ys"
  then have lt: "i < length xs" by (cases "i < length xs") auto
  with d Cons_nth_drop_Suc[OF lt] show ?thesis by simp
qed

lemma drop_last_one: "p \<noteq> [] \<Longrightarrow> drop (length p - 1) p = [last p]"
  by (induction p rule: rev_induct) auto

text \<open>
  The dot loop on a label sequence that starts at the index it is given turns every length
  byte into a dot; and whenever it returns on a buffer whose only zero byte is the last,
  the buffer holds a label sequence from that index on.
\<close>

lemma dot_loop_labels:
  "\<forall>l\<in>set ls. l \<noteq> [] \<and> length l < 256 \<Longrightarrow>
   dot_loop (pre @ wire_labels ls @ [0]) (length pre) = Inr (pre @ dotted ls @ [0])"
proof (induction ls arbitrary: pre)
  case Nil
  show ?case by (simp add: dot_loop.simps)
next
  case (Cons l ls)
  have l: "l \<noteq> []" "length l < 256" using Cons.prems by auto
  have nz: "(of_nat (length l) :: byte) \<noteq> 0" using l by (simp add: length_byte_nonzero)
  have "dot_loop (pre @ wire_labels (l # ls) @ [0]) (length pre)
        = dot_loop ((pre @ 0x2E # l) @ wire_labels ls @ [0]) (length (pre @ 0x2E # l))"
    using nz l by (subst dot_loop.simps) (simp add: unat_length_byte)
  also have "\<dots> = Inr ((pre @ 0x2E # l) @ dotted ls @ [0])"
    using Cons.prems by (intro Cons.IH) simp
  finally show ?case by simp
qed

lemma dot_loop_success_labels:
  "dot_loop p j = Inr p' \<Longrightarrow> p \<noteq> [] \<Longrightarrow> last p = 0 \<Longrightarrow> \<forall>k<length p - 1. p ! k \<noteq> 0 \<Longrightarrow>
   \<exists>ls. (\<forall>l\<in>set ls. l \<noteq> [] \<and> length l < 256) \<and> drop j p = wire_labels ls @ [0]"
proof (induction p j rule: dot_loop.induct)
  case (1 p j)
  have lt: "j < length p"
    using "1.prems"(1) by (subst (asm) dot_loop.simps) (auto split: if_splits)
  show ?case
  proof (cases "p ! j = 0")
    case True
    with "1.prems"(4) lt have "j = length p - 1" by (metis Suc_pred' length_greater_0_conv "1.prems"(2) less_Suc_eq)
    then have "drop j p = wire_labels [] @ [0]"
      using drop_last_one[OF "1.prems"(2)] "1.prems"(3) by simp
    then show ?thesis by (intro exI[of _ "[]"]) simp
  next
    case False
    let ?c = "p ! j"
    let ?p = "p[j := 0x2E]"
    have rec: "dot_loop ?p (j + unat ?c + 1) = Inr p'"
      using "1.prems"(1) lt False by (subst (asm) dot_loop.simps) simp
    have jl: "j < length p - 1"
    proof -
      have "p ! (length p - 1) = 0" using "1.prems"(2,3) by (simp add: last_conv_nth)
      with False have "j \<noteq> length p - 1" by auto
      with lt show ?thesis by arith
    qed
    have a: "?p \<noteq> []" using "1.prems"(2) by simp
    have b: "last ?p = 0" using jl "1.prems"(2,3) by (simp add: last_conv_nth)
    have c: "\<forall>k<length ?p - 1. ?p ! k \<noteq> 0"
    proof (intro allI impI)
      fix k assume k: "k < length ?p - 1"
      then have "k < length p" by simp
      then have "?p ! k = (if k = j then 0x2E else p ! k)" by (simp add: nth_list_update)
      with "1.prems"(4) k show "?p ! k \<noteq> 0" by simp
    qed
    from "1.IH"[OF _ False rec a b c] lt
    obtain ls where ls: "\<forall>l\<in>set ls. l \<noteq> [] \<and> length l < 256"
      and d: "drop (j + unat ?c + 1) ?p = wire_labels ls @ [0]" by auto
    have d': "drop (j + unat ?c + 1) p = wire_labels ls @ [0]"
      using d by (simp add: drop_update_cancel)
    then have bound: "j + unat ?c + 1 < length p" by (cases "j + unat ?c + 1 < length p") auto
    let ?l = "take (unat ?c) (drop (j + 1) p)"
    have len: "length ?l = unat ?c" using bound by simp
    have cz: "unat ?c \<noteq> 0" using False by (simp add: unat_eq_0)
    have cb: "unat ?c < 256" using unsigned_less[of ?c, where ?'a = nat] by simp
    have "drop j p = ?c # drop (j + 1) p" using lt by (simp add: Cons_nth_drop_Suc)
    also have "drop (j + 1) p = ?l @ drop (unat ?c) (drop (j + 1) p)"
      by (rule append_take_drop_id[symmetric])
    also have "drop (unat ?c) (drop (j + 1) p) = drop (j + unat ?c + 1) p"
      by (simp add: add.commute add.left_commute)
    finally have "drop j p = ?c # ?l @ wire_labels ls @ [0]"
      using d' by simp
    moreover have "of_nat (length ?l) = ?c" using len by simp
    ultimately have "drop j p = wire_labels (?l # ls) @ [0]"
      by (simp only: wire_labels_Cons append_Cons append_assoc)
    moreover have "\<forall>l\<in>set (?l # ls). l \<noteq> [] \<and> length l < 256"
      using ls len cz cb by (metis length_0_conv set_ConsD)
    ultimately show ?thesis by blast
  qed
qed

subsection \<open>The header codec of request.go\<close>

text \<open>
  C5 (encode is the inverse of decode for the header of \<open>Request\<close>). The code does not
  do this for the field \<open>Z\<close>: \<open>AppendRequest\<close> shifts \<open>Z\<close> by \<open>7 - 1 = 6\<close> places, while
  its own comment puts \<open>Z\<close> at the positions 1 to 3 of the byte and \<open>ParseRequest\<close> reads
  it from there (\<open>(b >> 4) & 0b00000111\<close>). For the header with ID \<open>0x1234\<close>, RD = 1,
  Z = 1, QDCount = 1, every other field 0, and the question "a", type 1, class 1, the
  request parsed back from the bytes of \<open>AppendRequest\<close> has Z = 4; every other field is
  recovered.
\<close>

theorem AppendRequest_ParseRequest_loses_Z:
  "ParseRequest dst (AppendRequest []
     \<lparr>Request.Header =
        \<lparr>RequestHeader.ID = 0x1234, QR = 0, Opcode = 0, AA = 0, TC = 0, RD = 1, RA = 0,
         Z = 1, RCODE = 0, QDCount = 1, ANCount = 0, NSCount = 0, ARCount = 0\<rparr>,
      Question = \<lparr>RequestQuestion.Name = [1, 0x61, 0], Type = 1, Class = 1\<rparr>\<rparr>)
   = (None,
     \<lparr>Request.Header =
        \<lparr>RequestHeader.ID = 0x1234, QR = 0, Opcode = 0, AA = 0, TC = 0, RD = 1, RA = 0,
         Z = 4, RCODE = 0, QDCount = 1, ANCount = 0, NSCount = 0, ARCount = 0\<rparr>,
      Question = \<lparr>RequestQuestion.Name = [1, 0x61, 0], Type = 1, Class = 1\<rparr>\<rparr>)"
  by (simp add: ParseRequest_def AppendRequest_def Let_def be16_def put16_def)

subsection \<open>The question setter\<close>

lemma bits_after_mask:
  fixes b :: u16
  shows "bits_QR (b AND 0x7FF0 OR 0x0100) = 0"
    and "bits_RD (b AND 0x7FF0 OR 0x0100) = 1"
    and "bits_RCODE (b AND 0x7FF0 OR 0x0100) = 0"
    and "bits_Opcode (b AND 0x7FF0 OR 0x0100) = bits_Opcode b"
    and "bits_AA (b AND 0x7FF0 OR 0x0100) = bits_AA b"
    and "bits_TC (b AND 0x7FF0 OR 0x0100) = bits_TC b"
    and "bits_RA (b AND 0x7FF0 OR 0x0100) = bits_RA b"
    and "bits_Z (b AND 0x7FF0 OR 0x0100) = bits_Z b"
  unfolding bits_QR_def bits_RD_def bits_RCODE_def bits_Opcode_def bits_AA_def bits_TC_def bits_RA_def bits_Z_def
  by (rule bit_word_eqI; auto simp add: bit_simps numeral_eq_Suc less_Suc_eq)+

lemma split_dots_not_Nil: "split_dots d \<noteq> []"
  by (induction d) (auto split: list.splits)

lemma length_wire_split_dots: "length (wire_labels (split_dots d)) = length d + 1"
proof (induction d)
  case Nil
  show ?case by (simp add: wire_labels_def)
next
  case (Cons b bs)
  obtain l ls where s: "split_dots bs = l # ls"
    using split_dots_not_Nil[of bs] by (cases "split_dots bs") auto
  with Cons show ?case by (simp add: wire_labels_def)
qed

lemma SetQustion_Header:
  "Header (SetQustion rnd msg domain typ class) =
     (Header msg)\<lparr>MessageHeader.ID := rnd, Bits := Bits (Header msg) AND 0x7FF0 OR 0x0100,
                   QDCount := 1, ANCount := 0, NSCount := 0, ARCount := 0\<rparr>"
  by (simp add: SetQustion_def Let_def)

lemma SetQustion_Raw:
  "Raw (SetQustion rnd msg domain typ class) =
     put16 rnd @ put16 (Bits (Header msg) AND 0x7FF0 OR 0x0100) @ [0, 1, 0, 0, 0, 0, 0, 0]
     @ EncodeDomain [] domain @ put16 typ @ put16 class"
  by (simp add: SetQustion_def Let_def EncodeDomain_def)

lemma SetQustion_Question:
  "Question (SetQustion rnd msg domain typ class) =
     \<lparr>Name = Some (EncodeDomain [] domain), Type = typ, Class = class\<rparr>"
  by (simp add: SetQustion_def Let_def EncodeDomain_def put16_def length_wire_split_dots)

lemma SetQustion_Domain: "Domain (SetQustion rnd msg domain typ class) = domain"
  by (simp add: SetQustion_def Let_def)

text \<open>
  C6, as the claim states it, fails: the mask \<open>0b0111111111110000\<close> clears QR and RCODE
  only. On a message whose flag word was \<open>0xFFFF\<close>, Opcode, AA, TC, RA and Z are all
  ones after \<open>SetQustion\<close>.
\<close>

theorem SetQustion_keeps_flags_counterexample:
  "bits_Opcode (Bits (Header (SetQustion 0
      (empty_message\<lparr>Header := (Header empty_message)\<lparr>Bits := 0xFFFF\<rparr>\<rparr>) [0x61] 1 1))) = 15
   \<and> bits_AA (Bits (Header (SetQustion 0
      (empty_message\<lparr>Header := (Header empty_message)\<lparr>Bits := 0xFFFF\<rparr>\<rparr>) [0x61] 1 1))) = 1
   \<and> bits_TC (Bits (Header (SetQustion 0
      (empty_message\<lparr>Header := (Header empty_message)\<lparr>Bits := 0xFFFF\<rparr>\<rparr>) [0x61] 1 1))) = 1
   \<and> bits_RA (Bits (Header (SetQustion 0
      (empty_message\<lparr>Header := (Header empty_message)\<lparr>Bits := 0xFFFF\<rparr>\<rparr>) [0x61] 1 1))) = 1
   \<and> bits_Z (Bits (Header (SetQustion 0
      (empty_message\<lparr>Header := (Header empty_message)\<lparr>Bits := 0xFFFF\<rparr>\<rparr>) [0x61] 1 1))) = 7"
  by (simp add: SetQustion_def empty_message_def Let_def bits_Opcode_def bits_AA_def
      bits_TC_def bits_RA_def bits_Z_def)

text \<open>
  C6, amended: for every message, whatever its header was, and every domain, type and
  class, after \<open>SetQustion\<close> the flag word has QR = 0, RD = 1 and RCODE = 0, while
  Opcode, AA, TC, RA and Z keep the values they had; the ID is the random value drawn;
  QDCount is 1 and ANCount, NSCount and ARCount are 0; \<open>Raw\<close> is the 12 header bytes, the
  encoded domain, the type and the class; \<open>Question.Name\<close> is the encoded domain,
  \<open>Question.Type\<close> and \<open>Question.Class\<close> are the type and class given, and \<open>Domain\<close>
  is the domain given.
\<close>

theorem SetQustion_header_and_question:
  "bits_QR (Bits (Header (SetQustion rnd msg domain typ class))) = 0
   \<and> bits_RD (Bits (Header (SetQustion rnd msg domain typ class))) = 1
   \<and> bits_RCODE (Bits (Header (SetQustion rnd msg domain typ class))) = 0
   \<and> bits_Opcode (Bits (Header (SetQustion rnd msg domain typ class))) = bits_Opcode (Bits (Header msg))
   \<and> bits_AA (Bits (Header (SetQustion rnd msg domain typ class))) = bits_AA (Bits (Header msg))
   \<and> bits_TC (Bits (Header (SetQustion rnd msg domain typ class))) = bits_TC (Bits (Header msg))
   \<and> bits_RA (Bits (Header (SetQustion rnd msg domain typ class))) = bits_RA (Bits (Header msg))
   \<and> bits_Z (Bits (Header (SetQustion rnd msg domain typ class))) = bits_Z (Bits (Header msg))
   \<and> MessageHeader.ID (Header (SetQustion rnd msg domain typ class)) = rnd
   \<and> QDCount (Header (SetQustion rnd msg domain typ class)) = 1
   \<and> ANCount (Header (SetQustion rnd msg domain typ class)) = 0
   \<and> NSCount (Header (SetQustion rnd msg domain typ class)) = 0
   \<and> ARCount (Header (SetQustion rnd msg domain typ class)) = 0
   \<and> Raw (SetQustion rnd msg domain typ class) =
       put16 rnd @ put16 (Bits (Header msg) AND 0x7FF0 OR 0x0100) @ [0, 1, 0, 0, 0, 0, 0, 0]
       @ EncodeDomain [] domain @ put16 typ @ put16 class
   \<and> Name (Question (SetQustion rnd msg domain typ class)) = Some (EncodeDomain [] domain)
   \<and> Type (Question (SetQustion rnd msg domain typ class)) = typ
   \<and> Class (Question (SetQustion rnd msg domain typ class)) = class
   \<and> Domain (SetQustion rnd msg domain typ class) = domain"
  by (simp add: SetQustion_Header SetQustion_Raw SetQustion_Question SetQustion_Domain
      bits_after_mask)

subsection \<open>The message parser\<close>

text \<open>
  \<open>ParseMessage\<close> on a payload whose question name is a label sequence without zero
  bytes inside the labels, and what a successful \<open>ParseMessage\<close> says about any payload.
\<close>

lemma be16_0_1: "be16 0 1 = 1"
  by (simp add: be16_def)

lemma ParseMessage_labels:
  assumes hdr: "length hdr = 12" "hdr ! 4 = 0" "hdr ! 5 = 1"
    and ls: "ls \<noteq> []" "\<forall>l\<in>set ls. l \<noteq> [] \<and> length l < 256 \<and> 0 \<notin> set l"
  shows "ParseMessage dst (hdr @ wire_labels ls @ [0] @ [t1, t2, c1, c2] @ rest) copying =
    (None,
     (if copying then dst\<lparr>Raw := hdr @ wire_labels ls @ [0] @ [t1, t2, c1, c2] @ rest\<rparr> else dst)
       \<lparr>Header := \<lparr>MessageHeader.ID = be16 (hdr ! 0) (hdr ! 1), Bits = be16 (hdr ! 2) (hdr ! 3),
                    QDCount = 1, ANCount = be16 (hdr ! 6) (hdr ! 7),
                    NSCount = be16 (hdr ! 8) (hdr ! 9), ARCount = be16 (hdr ! 10) (hdr ! 11)\<rparr>,
         Question := \<lparr>Name = Some (wire_labels ls @ [0]), Type = be16 t1 t2, Class = be16 c1 c2\<rparr>,
         Domain := join_dots ls\<rparr>)"
proof -
  let ?w = "wire_labels ls"
  let ?tail = "[t1, t2, c1, c2] @ rest"
  let ?payload = "hdr @ ?w @ [0] @ ?tail"
  obtain l ls' where lls: "ls = l # ls'" using ls(1) by (cases ls) auto
  have l: "l \<noteq> []" "length l < 256" using ls(2) lls by auto
  have wf': "\<forall>l\<in>set ls'. l \<noteq> [] \<and> length l < 256" using ls(2) lls by auto
  have nth: "\<And>k. k < 12 \<Longrightarrow> ?payload ! k = hdr ! k" using hdr(1) by (simp add: nth_append)
  have len: "\<not> length ?payload < 12" using hdr(1) by simp
  have qd: "be16 (hdr ! 4) (hdr ! 5) = 1" using hdr by (simp add: be16_def)
  have d12: "drop 12 ?payload = ?w @ 0 # ?tail" using hdr(1) by simp
  have fz: "first_zero (?w @ 0 # ?tail) = length ?w"
    using wire_labels_nonzero[OF ls(2)] by (intro first_zero_prefix) auto
  have wpos: "length ?w \<noteq> 0" using lls by simp
  have name: "take (length ?w + 1) (?w @ 0 # ?tail) = ?w @ [0]" by simp
  have dr: "drop (length ?w) (?w @ 0 # ?tail) = 0 # ?tail" by simp
  have n0: "(?w @ [0]) ! 0 = of_nat (length l)" using lls by simp
  have d1: "drop 1 (?w @ [0]) = l @ wire_labels ls' @ [0]" using lls by simp
  have loop: "dot_loop (l @ wire_labels ls' @ [0]) (length l) = Inr (l @ dotted ls' @ [0])"
    by (rule dot_loop_labels[OF wf'])
  have dom: "join_dots ls = l @ dotted ls'" using lls by (simp add: join_dots_Cons)
  have or16: "\<And>a b. ucast (b::byte) OR push_bit 8 (ucast (a::byte)) = be16 a b"
    by (simp add: be16_def or.commute)
  show ?thesis
    unfolding ParseMessage_def Let_def
    by (simp only: len nth qd d12 fz wpos name dr n0 d1 loop dom or16 unat_length_byte[OF l(2)])
       (simp add: hdr(1))
qed

lemma ParseMessage_success_labels:
  assumes ok: "ParseMessage dst payload copying = (None, msg)"
  shows "\<exists>ls rest. ls \<noteq> [] \<and> (\<forall>l\<in>set ls. l \<noteq> [] \<and> length l < 256)
           \<and> 12 \<le> length payload \<and> drop 12 payload = wire_labels ls @ 0 # rest
           \<and> Name (Question msg) = Some (wire_labels ls @ [0])
           \<and> Domain msg = join_dots ls
           \<and> Raw msg = (if copying then payload else Raw dst)"
proof -
  define q where "q = drop 12 payload"
  define i where "i = first_zero q"
  define name where "name = take (i + 1) q"
  define p where "p = drop 1 name"
  define c where "c = q ! 0"
  from ok have len: "12 \<le> length payload"
    by (auto simp: ParseMessage_def Let_def split: if_splits)
  from ok len have i0: "i \<noteq> 0" and i5: "i + 5 \<le> length q"
    unfolding i_def q_def by (auto simp: ParseMessage_def Let_def split: if_splits)
  from ok len i0 i5 obtain p' where
    loop: "dot_loop p (unat (name ! 0)) = Inr p'"
    and dom: "Domain msg = take (length p' - 1) p'"
    and nm: "Name (Question msg) = Some name"
    and raw: "Raw msg = (if copying then payload else Raw dst)"
    unfolding p_def name_def i_def q_def
    by (auto simp: ParseMessage_def Let_def split: if_splits sum.splits)
  have fz: "q ! i = 0" "\<forall>k<i. q ! k \<noteq> 0"
    using first_zero_found[of q] i5 unfolding i_def by auto
  have lp: "length p = i" using i5 by (simp add: p_def name_def)
  have pk: "\<And>k. k < i \<Longrightarrow> p ! k = q ! (k + 1)" using i5 by (simp add: p_def name_def)
  have a: "p \<noteq> []" using lp i0 by auto
  have b: "last p = 0" using a lp pk[of "i - 1"] i0 fz(1) by (simp add: last_conv_nth)
  have nz: "\<forall>k<length p - 1. p ! k \<noteq> 0"
  proof (intro allI impI)
    fix k assume "k < length p - 1"
    then have "k < i" "k + 1 < i" using lp by auto
    with pk[of k] fz(2) show "p ! k \<noteq> 0" by auto
  qed
  have n0: "name ! 0 = c" by (simp add: name_def c_def)
  have cz: "c \<noteq> 0" using fz(2) i0 by (auto simp: c_def)
  from dot_loop_success_labels[OF loop a b nz] obtain ls where
    ls: "\<forall>l\<in>set ls. l \<noteq> [] \<and> length l < 256"
    and d: "drop (unat c) p = wire_labels ls @ [0]" unfolding n0 by auto
  have bound: "unat c < length p" using d by (cases "unat c < length p") auto
  define l where "l = take (unat c) p"
  have ll: "length l = unat c" using bound by (simp add: l_def)
  have lc: "of_nat (length l) = c" using ll by simp
  have lwf: "l \<noteq> [] \<and> length l < 256"
    using ll cz unsigned_less[of c, where ?'a = nat] by (auto simp: unat_eq_0)
  have psplit: "p = l @ wire_labels ls @ [0]"
    using d append_take_drop_id[of "unat c" p] by (simp add: l_def)
  have "name = c # p"
  proof -
    have "name \<noteq> []" using i5 by (auto simp: name_def)
    then have "name = name ! 0 # drop 1 name" by (cases name) auto
    then show ?thesis by (simp add: n0 p_def)
  qed
  then have name: "name = wire_labels (l # ls) @ [0]"
    using psplit lc by (simp only: wire_labels_Cons append_Cons append_assoc)
  have wf: "\<forall>l\<in>set (l # ls). l \<noteq> [] \<and> length l < 256" using ls lwf by simp
  have "dot_loop (l @ wire_labels ls @ [0]) (length l) = Inr (l @ dotted ls @ [0])"
    by (rule dot_loop_labels[OF ls])
  with loop psplit ll n0 have "p' = l @ dotted ls @ [0]" by simp
  with dom have dom': "Domain msg = join_dots (l # ls)" by (simp add: join_dots_Cons)
  define r where "r = drop (i + 1) q"
  have "q = name @ r" by (simp add: name_def r_def)
  then have "q = wire_labels (l # ls) @ 0 # r" by (simp only: name append_assoc append_Cons append_Nil)
  then have "drop 12 payload = wire_labels (l # ls) @ 0 # r" by (simp only: q_def)
  with wf dom' nm name len raw show ?thesis
    by (intro exI[of _ "l # ls"] exI[of _ r]) (simp del: wire_labels_Cons)
qed

text \<open>
  C2: for every payload made of 12 header bytes with QDCOUNT = 1 (bytes 4 and 5 are 0 and
  1), a QNAME of at least one label, each label of 1 to 63 bytes none of which is zero (so
  that the first zero byte after the header is the terminator the label lengths lead to),
  the terminating zero, QTYPE, QCLASS and any further bytes, and for every destination
  message and either value of \<open>copying\<close>, \<open>ParseMessage\<close> returns no error, and \<open>Domain\<close>
  is the labels joined by dots: no length byte, no terminator, beginning with the first
  byte of the first label and ending with the last byte of the last label.
  \<open>Question.Name\<close> is the QNAME as on the wire, \<open>Question.Type\<close> and \<open>Question.Class\<close>
  are QTYPE and QCLASS.
\<close>

theorem ParseMessage_well_formed_question:
  assumes "length hdr = 12" and "hdr ! 4 = 0" and "hdr ! 5 = 1"
    and "ls \<noteq> []" and "\<forall>l\<in>set ls. 1 \<le> length l \<and> length l \<le> 63 \<and> 0 \<notin> set l"
  shows "fst (ParseMessage dst (hdr @ wire_labels ls @ [0] @ [t1, t2, c1, c2] @ rest) copying) = None
    \<and> Domain (snd (ParseMessage dst (hdr @ wire_labels ls @ [0] @ [t1, t2, c1, c2] @ rest) copying))
        = join_dots ls
    \<and> hd (Domain (snd (ParseMessage dst (hdr @ wire_labels ls @ [0] @ [t1, t2, c1, c2] @ rest) copying)))
        = hd (hd ls)
    \<and> last (Domain (snd (ParseMessage dst (hdr @ wire_labels ls @ [0] @ [t1, t2, c1, c2] @ rest) copying)))
        = last (last ls)
    \<and> Name (Question (snd (ParseMessage dst (hdr @ wire_labels ls @ [0] @ [t1, t2, c1, c2] @ rest) copying)))
        = Some (wire_labels ls @ [0])
    \<and> Type (Question (snd (ParseMessage dst (hdr @ wire_labels ls @ [0] @ [t1, t2, c1, c2] @ rest) copying)))
        = be16 t1 t2
    \<and> Class (Question (snd (ParseMessage dst (hdr @ wire_labels ls @ [0] @ [t1, t2, c1, c2] @ rest) copying)))
        = be16 c1 c2"
proof -
  have wf: "\<forall>l\<in>set ls. l \<noteq> [] \<and> length l < 256 \<and> 0 \<notin> set l" using assms(5) by fastforce
  then have ne: "\<forall>l\<in>set ls. l \<noteq> []" by simp
  show ?thesis
    unfolding ParseMessage_labels[OF assms(1,2,3,4) wf]
    using join_dots_ends[OF assms(4) ne] by simp
qed

text \<open>The query of the spec for "example.com", type A, class IN.\<close>

theorem ParseMessage_well_formed_question_witness:
  "fst (ParseMessage empty_message
         ([0x12, 0x34, 0x01, 0x00, 0, 1, 0, 0, 0, 0, 0, 0]
          @ [7, 0x65, 0x78, 0x61, 0x6D, 0x70, 0x6C, 0x65, 3, 0x63, 0x6F, 0x6D, 0]
          @ [0, 1, 0, 1]) False) = None
   \<and> Domain (snd (ParseMessage empty_message
         ([0x12, 0x34, 0x01, 0x00, 0, 1, 0, 0, 0, 0, 0, 0]
          @ [7, 0x65, 0x78, 0x61, 0x6D, 0x70, 0x6C, 0x65, 3, 0x63, 0x6F, 0x6D, 0]
          @ [0, 1, 0, 1]) False))
      = [0x65, 0x78, 0x61, 0x6D, 0x70, 0x6C, 0x65, 0x2E, 0x63, 0x6F, 0x6D]
   \<and> Type (Question (snd (ParseMessage empty_message
         ([0x12, 0x34, 0x01, 0x00, 0, 1, 0, 0, 0, 0, 0, 0]
          @ [7, 0x65, 0x78, 0x61, 0x6D, 0x70, 0x6C, 0x65, 3, 0x63, 0x6F, 0x6D, 0]
          @ [0, 1, 0, 1]) False))) = 1
   \<and> Class (Question (snd (ParseMessage empty_message
         ([0x12, 0x34, 0x01, 0x00, 0, 1, 0, 0, 0, 0, 0, 0]
          @ [7, 0x65, 0x78, 0x61, 0x6D, 0x70, 0x6C, 0x65, 3, 0x63, 0x6F, 0x6D, 0]
          @ [0, 1, 0, 1]) False))) = 1"
  using ParseMessage_well_formed_question[of "[0x12, 0x34, 0x01, 0x00, 0, 1, 0, 0, 0, 0, 0, 0]"
      "[[0x65, 0x78, 0x61, 0x6D, 0x70, 0x6C, 0x65], [0x63, 0x6F, 0x6D]]"
      empty_message 0 1 0 1 "[]" False]
  by (simp add: be16_0_1)

text \<open>
  C10 (\<open>ParseMessage\<close> returns an error or succeeds on every payload, with every index
  of the domain loop in bounds). The code does not do this: on any payload with
  QDCOUNT = 1 whose bytes from offset 12 are \<open>[3, 'a', 0]\<close> followed by at least four
  more bytes, the scan stops at the zero at index 2, the name is \<open>[3, 'a', 0]\<close>, its copy
  without the first byte has length 2, and the loop reads it at index 3: the call panics
  with an index out of range, for either value of \<open>copying\<close>.
\<close>

theorem ParseMessage_inconsistent_label_panics:
  "fst (ParseMessage dst
         ([i1, i2, f1, f2, 0, 1, a1, a2, n1, n2, r1, r2] @ [3, 0x61, 0] @ [t1, t2, c1, c2] @ rest)
         copying)
   = Some (Panicked IndexOutOfRange)"
  by (simp add: ParseMessage_def Let_def be16_0_1 dot_loop.simps)

subsection \<open>Serializing and parsing back\<close>

lemma backfill_block:
  "0x2E \<notin> set l \<Longrightarrow> length A = i + m \<Longrightarrow>
   backfill i (m + length l) n (A @ l @ suf) = backfill i m (n + of_nat (length l)) (A @ l @ suf)"
proof (induction l arbitrary: n suf rule: rev_induct)
  case Nil
  show ?case by simp
next
  case (snoc x l)
  have x: "x \<noteq> 0x2E" and l: "0x2E \<notin> set l" using snoc.prems(1) by auto
  have at: "(A @ (l @ [x]) @ suf) ! (i + (m + length l)) = x"
    using snoc.prems(2) by (simp add: nth_append)
  have "backfill i (m + length (l @ [x])) n (A @ (l @ [x]) @ suf)
        = backfill i (Suc (m + length l)) n (A @ (l @ [x]) @ suf)" by simp
  also have "\<dots> = backfill i (m + length l) (n + 1) (A @ l @ x # suf)"
    using at x by (simp del: append_assoc) simp
  also have "\<dots> = backfill i m (n + 1 + of_nat (length l)) (A @ l @ x # suf)"
    by (rule snoc.IH[OF l snoc.prems(2)])
  finally have "backfill i (m + length (l @ [x])) n (A @ (l @ [x]) @ suf)
        = backfill i m (n + 1 + of_nat (length l)) (A @ l @ x # suf)" .
  moreover have "n + 1 + of_nat (length l) = n + of_nat (length (l @ [x]))" by simp
  moreover have "A @ l @ x # suf = A @ (l @ [x]) @ suf" by simp
  ultimately show ?case by metis
qed

lemma backfill_labels:
  "\<forall>l\<in>set ls. 0x2E \<notin> set l \<Longrightarrow>
   backfill (length pre) (length (dotted ls)) 0 (pre @ dotted ls @ suf) = pre @ wire_labels ls @ suf"
proof (induction ls arbitrary: suf rule: rev_induct)
  case Nil
  show ?case by simp
next
  case (snoc l ls)
  have l: "0x2E \<notin> set l" and ls: "\<forall>l\<in>set ls. 0x2E \<notin> set l" using snoc.prems by auto
  let ?A = "pre @ dotted ls @ [0x2E]"
  have lenA: "length ?A = length pre + (length (dotted ls) + 1)" by simp
  have "backfill (length pre) (length (dotted (ls @ [l]))) 0 (pre @ dotted (ls @ [l]) @ suf)
        = backfill (length pre) ((length (dotted ls) + 1) + length l) 0 (?A @ l @ suf)"
    by (simp add: add.commute add.left_commute)
  also have "\<dots> = backfill (length pre) (length (dotted ls) + 1) (0 + of_nat (length l)) (?A @ l @ suf)"
    by (rule backfill_block[OF l lenA])
  also have "\<dots> = backfill (length pre) (length (dotted ls)) 0
                     (pre @ dotted ls @ (of_nat (length l) # l @ suf))"
    by (simp add: nth_append list_update_append)
  also have "\<dots> = pre @ wire_labels ls @ (of_nat (length l) # l @ suf)"
    by (rule snoc.IH[OF ls])
  finally show ?case by simp
qed

lemma split_dots_plain:
  "0x2E \<notin> set l \<Longrightarrow> split_dots (l @ xs) = (l @ hd (split_dots xs)) # tl (split_dots xs)"
proof (induction l)
  case Nil
  show ?case using split_dots_not_Nil[of xs] by simp
next
  case (Cons b l)
  then show ?case by (simp split: list.splits)
qed

lemma split_dots_join:
  "ls \<noteq> [] \<Longrightarrow> \<forall>l\<in>set ls. 0x2E \<notin> set l \<Longrightarrow> split_dots (join_dots ls) = ls"
proof (induction ls rule: join_dots.induct)
  case 1
  then show ?case by simp
next
  case (2 l)
  then show ?case using split_dots_plain[of l "[]"] by simp
next
  case (3 l k ks)
  then show ?case using split_dots_plain[of l "0x2E # join_dots (k # ks)"] by simp
qed

lemma put16_1: "put16 1 = [0, 1]"
  by (simp add: put16_def)

lemma AppendMessage_backfill:
  assumes "QDCount (Header msg) = 1" "Name (Question msg) = None" "Domain msg = join_dots ls"
    "ls \<noteq> []" "\<forall>l\<in>set ls. 0x2E \<notin> set l"
  shows "AppendMessage buf msg =
     buf @ (put16 (MessageHeader.ID (Header msg)) @ put16 (Bits (Header msg)) @ [0, 1]
            @ put16 (ANCount (Header msg)) @ put16 (NSCount (Header msg))
            @ put16 (ARCount (Header msg)))
         @ wire_labels ls @ [0]
         @ put16 (Type (Question msg)) @ put16 (Class (Question msg))"
proof -
  let ?hdr = "put16 (MessageHeader.ID (Header msg)) @ put16 (Bits (Header msg)) @ [0, 1]
            @ put16 (ANCount (Header msg)) @ put16 (NSCount (Header msg))
            @ put16 (ARCount (Header msg))"
  have d: "0x2E # join_dots ls = dotted ls" using assms(4) by (simp add: dotted_join)
  have n: "Suc (length (join_dots ls)) = length (dotted ls)" using d[symmetric] by simp
  have "backfill (length (buf @ ?hdr)) (length (dotted ls)) 0 ((buf @ ?hdr) @ dotted ls @ [])
        = (buf @ ?hdr) @ wire_labels ls @ []"
    by (rule backfill_labels[OF assms(5)])
  then have bf: "backfill (length buf + length ?hdr) (length (dotted ls)) 0 (buf @ ?hdr @ dotted ls)
        = buf @ ?hdr @ wire_labels ls" by simp
  show ?thesis
    using assms(1,2,3) bf
    by (simp add: AppendMessage_def Let_def put16_1 d n)
qed

lemma AppendMessage_SetQustion:
  assumes "ls \<noteq> []" "\<forall>l\<in>set ls. 0x2E \<notin> set l"
  shows "AppendMessage buf (SetQustion rnd m (join_dots ls) typ class) =
     buf @ (put16 rnd @ put16 (Bits (Header m) AND 0x7FF0 OR 0x0100) @ [0, 1]
            @ put16 0 @ put16 0 @ put16 0)
         @ wire_labels ls @ [0] @ put16 typ @ put16 class"
  by (simp add: AppendMessage_def Let_def SetQustion_Header SetQustion_Question put16_1
      EncodeDomain_def split_dots_join[OF assms])

text \<open>
  C7, as the claim states it, fails: the domain of one label \<open>"a\0b"\<close>, three bytes and
  no dot, is serialized by \<open>AppendMessage\<close> on either path, and \<open>ParseMessage\<close> does not
  succeed on the bytes, since it takes the first zero byte after the header for the end
  of the name.
\<close>

theorem AppendMessage_ParseMessage_zero_byte_counterexample:
  "length [[0x61, 0, 0x62 :: byte]] = 1 \<and> length [0x61, 0, 0x62 :: byte] = 3
   \<and> 0x2E \<notin> set [0x61, 0, 0x62 :: byte]
   \<and> join_dots [[0x61, 0, 0x62]] = [0x61, 0, 0x62]
   \<and> fst (ParseMessage empty_message
        (AppendMessage []
           (empty_message\<lparr>Domain := [0x61, 0, 0x62],
                           Header := (Header empty_message)\<lparr>QDCount := 1\<rparr>\<rparr>)) True)
      = Some (Panicked IndexOutOfRange)
   \<and> fst (ParseMessage empty_message
        (AppendMessage [] (SetQustion 0x1234 empty_message [0x61, 0, 0x62] 1 1)) True)
      = Some (Panicked IndexOutOfRange)"
  by code_simp

text \<open>
  C7, amended: for every domain of 1 to 127 labels, each label of 1 to 63 bytes with no
  dot and no zero byte inside, serializing with \<open>AppendMessage\<close>, onto any buffer, a
  message with QDCount = 1 that carries the domain in \<open>Domain\<close> with a nil
  \<open>Question.Name\<close> (the backfill encoding), or a message built by \<open>SetQustion\<close> for the
  domain, and parsing the bytes appended with \<open>ParseMessage\<close> succeeds and gives back the
  domain as \<open>Domain\<close>.
\<close>

theorem AppendMessage_ParseMessage_round_trip:
  assumes "1 \<le> length ls" and "length ls \<le> 127"
    and "\<forall>l\<in>set ls. 1 \<le> length l \<and> length l \<le> 63 \<and> 0x2E \<notin> set l \<and> 0 \<notin> set l"
  shows "(QDCount (Header msg) = 1 \<and> Name (Question msg) = None \<and> Domain msg = join_dots ls \<longrightarrow>
            fst (ParseMessage dst (drop (length buf) (AppendMessage buf msg)) copying) = None
          \<and> Domain (snd (ParseMessage dst (drop (length buf) (AppendMessage buf msg)) copying))
              = join_dots ls)
       \<and> fst (ParseMessage dst
                (drop (length buf) (AppendMessage buf (SetQustion rnd m (join_dots ls) typ class)))
                copying) = None
       \<and> Domain (snd (ParseMessage dst
                (drop (length buf) (AppendMessage buf (SetQustion rnd m (join_dots ls) typ class)))
                copying)) = join_dots ls"
proof -
  have ne: "ls \<noteq> []" using assms(1) by auto
  have wf: "\<forall>l\<in>set ls. l \<noteq> [] \<and> length l < 256 \<and> 0 \<notin> set l" using assms(3) by fastforce
  have nd: "\<forall>l\<in>set ls. 0x2E \<notin> set l" using assms(3) by simp
  have parse: "fst (ParseMessage dst (h @ wire_labels ls @ [0] @ put16 t @ put16 c) copying) = None
      \<and> Domain (snd (ParseMessage dst (h @ wire_labels ls @ [0] @ put16 t @ put16 c) copying))
          = join_dots ls"
    if "length h = 12" "h ! 4 = 0" "h ! 5 = 1" for h t c
  proof -
    have "put16 t @ put16 c = [ucast (drop_bit 8 t), ucast (t AND 0xff),
                               ucast (drop_bit 8 c), ucast (c AND 0xff)] @ []"
      by (simp add: put16_def)
    then show ?thesis
      by (simp only: ParseMessage_labels[OF that ne wf] fst_conv snd_conv)
         simp
  qed
  have a: "fst (ParseMessage dst (drop (length buf) (AppendMessage buf msg)) copying) = None
          \<and> Domain (snd (ParseMessage dst (drop (length buf) (AppendMessage buf msg)) copying))
              = join_dots ls"
    if "QDCount (Header msg) = 1" "Name (Question msg) = None" "Domain msg = join_dots ls"
    unfolding AppendMessage_backfill[OF that ne nd]
    using parse[of "put16 (MessageHeader.ID (Header msg)) @ put16 (Bits (Header msg)) @ [0, 1]
            @ put16 (ANCount (Header msg)) @ put16 (NSCount (Header msg))
            @ put16 (ARCount (Header msg))"]
    by (simp add: put16_def del: append_assoc)
  have b: "fst (ParseMessage dst
                (drop (length buf) (AppendMessage buf (SetQustion rnd m (join_dots ls) typ class)))
                copying) = None
       \<and> Domain (snd (ParseMessage dst
                (drop (length buf) (AppendMessage buf (SetQustion rnd m (join_dots ls) typ class)))
                copying)) = join_dots ls"
    unfolding AppendMessage_SetQustion[OF ne nd]
    using parse[of "put16 rnd @ put16 (Bits (Header m) AND 0x7FF0 OR 0x0100) @ [0, 1]
            @ put16 0 @ put16 0 @ put16 0"]
    by (simp add: put16_def del: append_assoc)
  from a b show ?thesis by blast
qed

text \<open>The scenario of the spec: the domain "a.b.c" with type 1 and class 1, on both paths.\<close>

theorem AppendMessage_ParseMessage_round_trip_witness:
  "Domain (snd (ParseMessage empty_message
      (AppendMessage [] (SetQustion 0x1234 empty_message [0x61, 0x2E, 0x62, 0x2E, 0x63] 1 1)) True))
    = [0x61, 0x2E, 0x62, 0x2E, 0x63]
   \<and> fst (ParseMessage empty_message
      (AppendMessage [] (SetQustion 0x1234 empty_message [0x61, 0x2E, 0x62, 0x2E, 0x63] 1 1)) True)
    = None
   \<and> Domain (snd (ParseMessage empty_message
      (AppendMessage []
         (empty_message\<lparr>Domain := [0x61, 0x2E, 0x62, 0x2E, 0x63],
                         Header := (Header empty_message)\<lparr>QDCount := 1\<rparr>\<rparr>)) True))
    = [0x61, 0x2E, 0x62, 0x2E, 0x63]"
  using AppendMessage_ParseMessage_round_trip[of "[[0x61], [0x62], [0x63]]"
      "empty_message\<lparr>Domain := [0x61, 0x2E, 0x62, 0x2E, 0x63],
                      Header := (Header empty_message)\<lparr>QDCount := 1\<rparr>\<rparr>"
      empty_message "[]" True "0x1234" empty_message 1 1]
  by (simp add: empty_message_def)

subsection \<open>Name decoding\<close>

lemma chase_self_pointer:
  assumes "p \<noteq> 0" "p + 1 < length raw" "raw ! p AND 0xC0 = 0xC0"
    "unat (raw ! p AND 0x3F) * 256 + unat (raw ! (p + 1)) = p"
  shows "chase raw spare p p dst = None"
proof -
  have nz: "raw ! p \<noteq> 0" using assms(3) by auto
  have never: "\<not> (r = raw \<and> off = p \<and> i = p)"
    if ret: "chase r sp off i d = Some y" for r sp off i d y
  proof (rule chase.raw_induct
      [where P = "\<lambda>r sp off i d y. \<not> (r = raw \<and> off = p \<and> i = p)", OF _ ret])
    fix f r sp off i d y
    assume IH: "\<And>r sp off i d y. f r sp off i d = Some y \<Longrightarrow> \<not> (r = raw \<and> off = p \<and> i = p)"
      and body: "(if off = 0 then Some (Inr d)
         else if i < length r then
           (if r ! i = 0 then Some (Inr (d @ [0]))
            else if r ! i AND 0xC0 = 0xC0 then
              (if i + 1 < length r
               then f r sp (unat (r ! i AND 0x3F) * 256 + unat (r ! (i + 1)))
                      (unat (r ! i AND 0x3F) * 256 + unat (r ! (i + 1))) d
               else Some (Inl IndexOutOfRange))
            else
              (if i + unat (r ! i) + 1 \<le> length r + length sp
               then f r sp off (i + unat (r ! i) + 1)
                      (d @ take (unat (r ! i) + 1) (drop i (r @ sp)))
               else Some (Inl SliceBoundsOutOfRange)))
         else f r sp off off d) = Some y"
    show "\<not> (r = raw \<and> off = p \<and> i = p)"
    proof
      assume "r = raw \<and> off = p \<and> i = p"
      with body assms nz have "f raw sp p p d = Some y" by simp
      from IH[OF this] show False by simp
    qed
  qed
  show ?thesis
  proof (cases "chase raw spare p p dst")
    case (Some y)
    from never[OF this] show ?thesis by simp
  qed simp
qed

text \<open>
  C1 (a pointer chain that revisits an offset is rejected with a decode error, and the
  decode terminates). The code does not do this: when the name ends in a pointer to an
  offset \<open>p\<close> of \<open>Raw\<close> where a pointer to \<open>p\<close> itself is stored, \<open>DecodeName\<close> does not
  return at all, whatever \<open>dst\<close> and the capacity of \<open>Raw\<close> are.
\<close>

theorem DecodeName_pointer_cycle_never_returns:
  assumes "2 \<le> length name" and "\<not> (name ! 1 = 12 \<and> name ! 0 = 0xC0)"
    and "name ! (length name - 1) \<noteq> 0"
    and "unat (name ! (length name - 2) AND 0x3F) * 256 + unat (name ! (length name - 1)) = p"
    and "p \<noteq> 0"
    and "p + 1 < length (Raw msg)" and "Raw msg ! p AND 0xC0 = 0xC0"
    and "unat (Raw msg ! p AND 0x3F) * 256 + unat (Raw msg ! (p + 1)) = p"
  shows "DecodeName spare msg dst name = None"
  using assms chase_self_pointer[of p "Raw msg" spare]
  by (simp add: DecodeName_def DecodeName_general_def Let_def)

text \<open>
  The failing input: a response to the question "a" whose one answer record starts, at
  offset 19, with the name \<open>[0xC0, 0x13]\<close>, a pointer to offset 19. It parses; decoding
  the name of its answer does not return.
\<close>

theorem DecodeName_pointer_cycle_never_returns_witness:
  "fst (ParseMessage empty_message
         ([0x12, 0x34, 0x81, 0x80, 0, 1, 0, 1, 0, 0, 0, 0] @ [1, 0x61, 0, 0, 1, 0, 1]
          @ [0xC0, 0x13, 0, 1, 0, 1, 0, 0, 1, 0x2C, 0, 4, 8, 8, 8, 8]) True) = None
   \<and> DecodeName []
       (snd (ParseMessage empty_message
         ([0x12, 0x34, 0x81, 0x80, 0, 1, 0, 1, 0, 0, 0, 0] @ [1, 0x61, 0, 0, 1, 0, 1]
          @ [0xC0, 0x13, 0, 1, 0, 1, 0, 0, 1, 0x2C, 0, 4, 8, 8, 8, 8]) True))
       [] [0xC0, 0x13] = None"
proof -
  have p: "ParseMessage empty_message
         ([0x12, 0x34, 0x81, 0x80, 0, 1, 0, 1, 0, 0, 0, 0] @ [1, 0x61, 0, 0, 1, 0, 1]
          @ [0xC0, 0x13, 0, 1, 0, 1, 0, 0, 1, 0x2C, 0, 4, 8, 8, 8, 8]) True
     = (None,
        \<lparr>Raw = [0x12, 0x34, 0x81, 0x80, 0, 1, 0, 1, 0, 0, 0, 0, 1, 0x61, 0, 0, 1, 0, 1,
                0xC0, 0x13, 0, 1, 0, 1, 0, 0, 1, 0x2C, 0, 4, 8, 8, 8, 8],
         Domain = [0x61],
         Header = \<lparr>MessageHeader.ID = 0x1234, Bits = 0x8180, QDCount = 1, ANCount = 1,
                    NSCount = 0, ARCount = 0\<rparr>,
         Question = \<lparr>Name = Some [1, 0x61, 0], Type = 1, Class = 1\<rparr>\<rparr>)"
    by (simp add: ParseMessage_def empty_message_def Let_def be16_def dot_loop.simps)
  show ?thesis
    unfolding p
    using DecodeName_pointer_cycle_never_returns
      [of "[0xC0, 0x13]" 19
          "\<lparr>Raw = [0x12, 0x34, 0x81, 0x80, 0, 1, 0, 1, 0, 0, 0, 0, 1, 0x61, 0, 0, 1, 0, 1,
                0xC0, 0x13, 0, 1, 0, 1, 0, 0, 1, 0x2C, 0, 4, 8, 8, 8, 8],
            Domain = [0x61],
            Header = \<lparr>MessageHeader.ID = 0x1234, Bits = 0x8180, QDCount = 1, ANCount = 1,
                       NSCount = 0, ARCount = 0\<rparr>,
            Question = \<lparr>Name = Some [1, 0x61, 0], Type = 1, Class = 1\<rparr>\<rparr>" "[]" "[]"]
    by simp
qed

lemma chase_labels:
  assumes "\<forall>l\<in>set ls. l \<noteq> [] \<and> length l < 256 \<and> (of_nat (length l) :: byte) AND 0xC0 \<noteq> 0xC0"
    and "offset \<noteq> 0" and "i \<le> length raw" and "drop i raw = wire_labels ls @ 0 # rest"
  shows "chase raw spare offset i dst = Some (Inr (dst @ wire_labels ls @ [0]))"
  using assms
proof (induction ls arbitrary: i dst)
  case Nil
  then have "i < length raw" "raw ! i = 0"
    using drop_eq_ConsD[of i raw 0 rest] by auto
  with Nil show ?case by (subst chase.simps) simp
next
  case (Cons l ls)
  let ?c = "of_nat (length l) :: byte"
  have l: "l \<noteq> []" "length l < 256" "?c AND 0xC0 \<noteq> 0xC0" using Cons.prems(1) by auto
  have nz: "?c \<noteq> 0" using l by (simp add: length_byte_nonzero)
  have d: "drop i raw = ?c # l @ wire_labels ls @ 0 # rest" using Cons.prems(4) by simp
  have len: "length raw - i = Suc (length l + length (wire_labels ls) + Suc (length rest))"
    using arg_cong[OF d, of length] by simp
  then have lt: "i < length raw" and le: "Suc (i + length l) \<le> length raw + length spare"
    by arith+
  have ri: "raw ! i = ?c" using drop_eq_ConsD[OF d] by simp
  have d': "drop (i + length l + 1) raw = wire_labels ls @ 0 # rest"
  proof -
    have "drop (i + length l + 1) raw = drop (length l + 1) (drop i raw)"
      by (simp add: add.commute add.left_commute)
    then show ?thesis by (simp add: d)
  qed
  have tk: "take (length l + 1) (drop i (raw @ spare)) = ?c # l"
    using lt d by simp
  have "chase raw spare offset i dst
        = chase raw spare offset (i + length l + 1) (dst @ ?c # l)"
    using lt le ri nz l Cons.prems(2) tk
    by (subst chase.simps) (simp add: unat_length_byte)
  also have "\<dots> = Some (Inr ((dst @ ?c # l) @ wire_labels ls @ [0]))"
    using Cons.prems len d' by (intro Cons.IH) auto
  finally show ?case by simp
qed

lemma DecodeName_general_question_pointer:
  assumes ls: "ls \<noteq> []"
    "\<forall>l\<in>set ls. l \<noteq> [] \<and> length l < 256 \<and> (of_nat (length l) :: byte) AND 0xC0 \<noteq> 0xC0"
    and raw: "12 \<le> length (Raw msg)" "drop 12 (Raw msg) = wire_labels ls @ 0 # rest"
  shows "DecodeName_general spare msg dst [0xC0, 0x0C] = Some (Inr (dst @ join_dots ls))"
proof -
  have wf: "\<forall>l\<in>set ls. l \<noteq> [] \<and> length l < 256" using ls(2) by auto
  have ch: "chase (Raw msg) spare 12 12 dst = Some (Inr (dst @ wire_labels ls @ [0]))"
    using ls(2) raw by (intro chase_labels[where rest = rest]) auto
  have lp: "dot_loop (dst @ wire_labels ls @ [0]) (length dst) = Inr (dst @ dotted ls @ [0])"
    by (rule dot_loop_labels[OF wf])
  have dj: "dotted ls = 0x2E # join_dots ls" by (rule dotted_join[OF ls(1)])
  have off: "unat ((0xC0::byte) AND 0x3F) * 256 + unat (0x0C::byte) = 12" by simp
  show ?thesis
    by (simp add: DecodeName_general_def Let_def ch lp dj)
qed

text \<open>
  C8: for every message that \<open>ParseMessage\<close> has parsed without error from the payload
  that is its \<open>Raw\<close>, and whose question name has no length byte tagged as a pointer,
  \<open>DecodeName\<close> on the name \<open>[0xC0, 0x0C]\<close> and the general path of \<open>DecodeName\<close> on the
  same name both return, with the same bytes: \<open>dst\<close> followed by \<open>Domain\<close>. This holds
  for every \<open>dst\<close> and whatever lies beyond the length of \<open>Raw\<close>.
\<close>

theorem DecodeName_fast_path_agrees:
  assumes "ParseMessage dst0 payload copying = (None, msg)" and "Raw msg = payload"
    and "\<forall>b\<in>set (length_bytes 0 (the (Name (Question msg)))). b AND 0xC0 \<noteq> 0xC0"
  shows "DecodeName spare msg dst [0xC0, 0x0C] = Some (Inr (dst @ Domain msg))
       \<and> DecodeName_general spare msg dst [0xC0, 0x0C] = Some (Inr (dst @ Domain msg))"
proof -
  from ParseMessage_success_labels[OF assms(1)] obtain ls rest where
    ls: "ls \<noteq> []" "\<forall>l\<in>set ls. l \<noteq> [] \<and> length l < 256"
    and p: "12 \<le> length payload" "drop 12 payload = wire_labels ls @ 0 # rest"
    and nm: "Name (Question msg) = Some (wire_labels ls @ [0])"
    and dom: "Domain msg = join_dots ls" by blast
  have "\<forall>b\<in>set (map (\<lambda>l. of_nat (length l)) ls @ [0::byte]). b AND 0xC0 \<noteq> 0xC0"
    using assms(3) nm length_bytes_wire[of ls] ls(2) by simp
  then have "\<forall>l\<in>set ls. (of_nat (length l) :: byte) AND 0xC0 \<noteq> 0xC0" by simp
  with ls have wf: "\<forall>l\<in>set ls. l \<noteq> [] \<and> length l < 256 \<and> (of_nat (length l) :: byte) AND 0xC0 \<noteq> 0xC0"
    by simp
  have "DecodeName_general spare msg dst [0xC0, 0x0C] = Some (Inr (dst @ join_dots ls))"
    using p assms(2) by (intro DecodeName_general_question_pointer[OF ls(1) wf, where rest = rest]) simp_all
  then show ?thesis by (simp add: DecodeName_def dom)
qed

text \<open>The query for "example.com", decoded after the two bytes already in \<open>dst\<close>.\<close>

theorem DecodeName_fast_path_agrees_witness:
  "DecodeName []
     (snd (ParseMessage empty_message
        ([0x12, 0x34, 0x01, 0x00, 0, 1, 0, 0, 0, 0, 0, 0]
         @ [7, 0x65, 0x78, 0x61, 0x6D, 0x70, 0x6C, 0x65, 3, 0x63, 0x6F, 0x6D, 0]
         @ [0, 1, 0, 1]) True))
     [9, 9] [0xC0, 0x0C]
   = Some (Inr [9, 9, 0x65, 0x78, 0x61, 0x6D, 0x70, 0x6C, 0x65, 0x2E, 0x63, 0x6F, 0x6D])
   \<and> DecodeName_general []
     (snd (ParseMessage empty_message
        ([0x12, 0x34, 0x01, 0x00, 0, 1, 0, 0, 0, 0, 0, 0]
         @ [7, 0x65, 0x78, 0x61, 0x6D, 0x70, 0x6C, 0x65, 3, 0x63, 0x6F, 0x6D, 0]
         @ [0, 1, 0, 1]) True))
     [9, 9] [0xC0, 0x0C]
   = Some (Inr [9, 9, 0x65, 0x78, 0x61, 0x6D, 0x70, 0x6C, 0x65, 0x2E, 0x63, 0x6F, 0x6D])"
proof -
  have p: "ParseMessage empty_message
        ([0x12, 0x34, 0x01, 0x00, 0, 1, 0, 0, 0, 0, 0, 0]
         @ [7, 0x65, 0x78, 0x61, 0x6D, 0x70, 0x6C, 0x65, 3, 0x63, 0x6F, 0x6D, 0]
         @ [0, 1, 0, 1]) True
     = (None,
        \<lparr>Raw = [0x12, 0x34, 0x01, 0x00, 0, 1, 0, 0, 0, 0, 0, 0]
               @ [7, 0x65, 0x78, 0x61, 0x6D, 0x70, 0x6C, 0x65, 3, 0x63, 0x6F, 0x6D, 0]
               @ [0, 1, 0, 1],
         Domain = [0x65, 0x78, 0x61, 0x6D, 0x70, 0x6C, 0x65, 0x2E, 0x63, 0x6F, 0x6D],
         Header = \<lparr>MessageHeader.ID = 0x1234, Bits = 0x0100, QDCount = 1, ANCount = 0,
                    NSCount = 0, ARCount = 0\<rparr>,
         Question = \<lparr>Name = Some [7, 0x65, 0x78, 0x61, 0x6D, 0x70, 0x6C, 0x65,
                                     3, 0x63, 0x6F, 0x6D, 0],
                      Type = 1, Class = 1\<rparr>\<rparr>)"
    by (simp add: ParseMessage_def empty_message_def Let_def be16_def dot_loop.simps)
  have lb: "length_bytes 0 [7, 0x65, 0x78, 0x61, 0x6D, 0x70, 0x6C, 0x65, 3, 0x63, 0x6F, 0x6D, 0]
            = [7, 3, 0]"
    by code_simp
  show ?thesis
    unfolding p
    using DecodeName_fast_path_agrees[OF p, of "[]" "[9, 9]"] lb
    by simp
qed

subsection \<open>The record iterator\<close>


lemma wf_name_plain:
  "\<forall>b\<in>set body. b \<noteq> 0 \<and> b AND 0xC0 \<noteq> 0xC0 \<Longrightarrow>
   wf_name (body @ [0]) \<and> (p AND 0xC0 = 0xC0 \<longrightarrow> wf_name (body @ [p, lo]))"
  by (induction body) auto

lemma wire_labels_plain:
  "\<forall>l\<in>set ls. 1 \<le> length l \<and> length l \<le> 63 \<and> (\<forall>b\<in>set l. b \<noteq> 0 \<and> b AND 0xC0 \<noteq> 0xC0) \<Longrightarrow>
   \<forall>b\<in>set (wire_labels ls). b \<noteq> 0 \<and> b AND 0xC0 \<noteq> 0xC0"
proof (induction ls)
  case Nil
  show ?case by simp
next
  case (Cons l ls)
  have l: "1 \<le> length l" "length l \<le> 63" using Cons.prems by auto
  have "(of_nat (length l) :: byte) \<noteq> 0" using l by (intro length_byte_nonzero) auto
  moreover have "(of_nat (length l) :: byte) AND 0xC0 \<noteq> 0xC0"
    using pointer_tag_ge[of "of_nat (length l)"] l by (auto simp: unat_length_byte)
  ultimately show ?case using Cons by auto
qed

text \<open>
  Every name made of labels of 1 to 63 bytes, none of them zero or tagged as a pointer,
  and ended by the zero byte or by a pointer, is well formed.
\<close>

lemma wf_name_labels:
  assumes "\<forall>l\<in>set ls. 1 \<le> length l \<and> length l \<le> 63 \<and> (\<forall>b\<in>set l. b \<noteq> 0 \<and> b AND 0xC0 \<noteq> 0xC0)"
  shows "wf_name (wire_labels ls @ [0])"
    and "p AND 0xC0 = 0xC0 \<Longrightarrow> wf_name (wire_labels ls @ [p, lo])"
  using wf_name_plain[OF wire_labels_plain[OF assms], of p lo] by auto









text \<open>
  C4 (truncation during the answer walk is \<open>ErrInvalidAnswer\<close>). The code does not do
  this: only a name that does not end gives \<open>ErrInvalidAnswer\<close>. On the response to the
  question "a" with ANCount = 1 whose answer is cut after four of the ten fixed bytes,
  the walk panics with an index out of range; on the one whose answer announces four
  bytes of RDATA and holds two, it panics with slice bounds out of range. In both the
  callback is not called.
\<close>

theorem VisitResourceRecords_truncation_panics:
  "VisitResourceRecords
     \<lparr>Raw = [0x12, 0x34, 0x81, 0x80, 0, 1, 0, 1, 0, 0, 0, 0] @ [1, 0x61, 0, 0, 1, 0, 1]
            @ [0xC0, 12, 0, 1, 0, 1],
      Domain = [0x61],
      Header = \<lparr>MessageHeader.ID = 0x1234, Bits = 0x8180, QDCount = 1, ANCount = 1,
                 NSCount = 0, ARCount = 0\<rparr>,
      Question = \<lparr>Name = Some [1, 0x61, 0], Type = 1, Class = 1\<rparr>\<rparr> f s
   = (Some (Panicked IndexOutOfRange), s)
   \<and> VisitResourceRecords
     \<lparr>Raw = [0x12, 0x34, 0x81, 0x80, 0, 1, 0, 1, 0, 0, 0, 0] @ [1, 0x61, 0, 0, 1, 0, 1]
            @ [0xC0, 12, 0, 1, 0, 1, 0, 0, 1, 0x2C, 0, 4, 8, 8],
      Domain = [0x61],
      Header = \<lparr>MessageHeader.ID = 0x1234, Bits = 0x8180, QDCount = 1, ANCount = 1,
                 NSCount = 0, ARCount = 0\<rparr>,
      Question = \<lparr>Name = Some [1, 0x61, 0], Type = 1, Class = 1\<rparr>\<rparr> f s
   = (Some (Panicked SliceBoundsOutOfRange), s)"
  by (simp add: VisitResourceRecords_def Let_def be16_def)



end
